theory Spec2Isabelle
  imports Complex_Main "HOL-Library.Word"
begin

section \<open>EMIT orthorectification and masking: the notebook cells as functions\<close>

text \<open>
  The repository is a set of Jupyter notebooks.  The cells that do array work are embedded
  here one by one, each as a function from the notebook variables it reads to the variables
  it assigns.  NumPy arrays are nested lists in row-major order (an array of shape
  \<open>(Y, X, B)\<close> is a list of \<open>Y\<close> rows, each a list of \<open>X\<close> pixels, each a list of
  \<open>B\<close> band values); an array with a zero-length axis is represented with its trailing
  axes of length zero too.  Python exceptions are values of \<open>error\<close>.
\<close>

subsection \<open>Floating-point values\<close>

text \<open>
  A floating-point array element is a NaN, an infinity or a finite number.  The finite
  numbers of every float width are real numbers; which reals a width can hold is decided by
  the cast into that width (\<open>to_float32\<close> below).  Signed zeros and NaN payloads are not
  distinguished.
\<close>

datatype fval = NaN | PInf | NInf | Fin real

datatype error = IndexError | ValueError

text \<open>\<open>pow2 e\<close> is \<open>2\<close> to the integer power \<open>e\<close>.\<close>

definition pow2 :: "int \<Rightarrow> real" where
  "pow2 e = (if 0 \<le> e then 2 ^ nat e else 1 / 2 ^ nat (- e))"

text \<open>
  \<open>flog2 fuel x\<close> is the binary exponent of a positive \<open>x\<close>, that is \<open>\<lfloor>log\<^sub>2 x\<rfloor>\<close>, found by
  halving or doubling at most \<open>fuel\<close> times.
\<close>

fun flog2 :: "nat \<Rightarrow> real \<Rightarrow> int" where
  "flog2 0 x = 0"
| "flog2 (Suc n) x =
     (if 2 \<le> x then flog2 n (x / 2) + 1
      else if x < 1 then flog2 n (2 * x) - 1
      else 0)"

text \<open>Rounding to the nearest integer, ties to the even one.\<close>

definition round_half_even :: "real \<Rightarrow> int" where
  "round_half_even x =
     (let f = \<lfloor>x\<rfloor>; d = x - of_int f
      in if d < 1 / 2 then f
         else if 1 / 2 < d then f + 1
         else if even f then f else f + 1)"

text \<open>
  The cast to \<open>numpy.float32\<close> (IEEE 754 binary32, round to nearest even): 24 significant
  bits, exponents from \<open>-126\<close> to \<open>127\<close>, subnormals below \<open>2\<^sup>-\<^sup>1\<^sup>2\<^sup>6\<close>, overflow to
  an infinity from \<open>2\<^sup>1\<^sup>2\<^sup>8\<close> on.
\<close>

definition round_float32 :: "real \<Rightarrow> fval" where
  "round_float32 r =
     (let a = \<bar>r\<bar> in
      if a = 0 then Fin 0
      else if 2 ^ 128 \<le> a then (if 0 < r then PInf else NInf)
      else
        let e = (if a < 1 / 2 ^ 126 then - 126 else flog2 128 a);
            ulp = pow2 (e - 23);
            m = of_int (round_half_even (a / ulp)) * ulp
        in if 2 ^ 128 \<le> m then (if 0 < r then PInf else NInf)
           else Fin (if 0 < r then m else - m))"

fun to_float32 :: "fval \<Rightarrow> fval" where
  "to_float32 (Fin r) = round_float32 r"
| "to_float32 v = v"

text \<open>
  A value is a \<open>float32\<close> value when the cast leaves it as it is.  The positive finite
  ones are the numbers \<open>q \<times> 2\<^sup>e\<^sup>-\<^sup>2\<^sup>3\<close> of \<open>on_grid\<close>: subnormal with \<open>e = -126\<close>
  and \<open>q\<close> below \<open>2\<^sup>2\<^sup>3\<close>, normal with \<open>q\<close> from \<open>2\<^sup>2\<^sup>3\<close> to \<open>2\<^sup>2\<^sup>4 - 1\<close>.
\<close>

definition is_float32 :: "fval \<Rightarrow> bool" where
  "is_float32 v = (to_float32 v = v)"

definition on_grid :: "real \<Rightarrow> bool" where
  "on_grid m = (\<exists>q e. - 126 \<le> e \<and> e \<le> 127
      \<and> (e = - 126 \<and> 0 < q \<and> q < 2 ^ 23 \<or> 2 ^ 23 \<le> q \<and> q < 2 ^ 24)
      \<and> m = of_int q * pow2 (e - 23))"

subsection \<open>Array primitives of NumPy used by the cells\<close>

text \<open>64-bit signed integers, the element type that \<open>astype(int)\<close> produces.\<close>

type_synonym int64 = "64 word"

text \<open>The length of the last axis of a three-dimensional array (\<open>a.shape[-1]\<close>).\<close>

definition shape_last :: "'a list list list \<Rightarrow> nat" where
  "shape_last a =
     (case a of [] \<Rightarrow> 0
      | row # _ \<Rightarrow> (case row of [] \<Rightarrow> 0 | pix # _ \<Rightarrow> length pix))"

text \<open>The length of the second axis of a two-dimensional array (\<open>a.shape[1]\<close>).\<close>

definition shape1 :: "'a list list \<Rightarrow> nat" where
  "shape1 a = (case a of [] \<Rightarrow> 0 | row # _ \<Rightarrow> length row)"

text \<open>
  \<open>np.stack([a, b], axis=-1)\<close> of two two-dimensional arrays: the arrays must have the
  same shape (otherwise \<open>ValueError\<close>); the new last axis has length two and is kept as a
  pair, component \<open>0\<close> first.
\<close>

definition np_stack2 :: "'a list list \<Rightarrow> 'a list list \<Rightarrow> error + ('a \<times> 'a) list list" where
  "np_stack2 a b =
     (if map length a = map length b then Inr (map2 zip a b) else Inl ValueError)"

text \<open>The largest finite \<open>float64\<close>.\<close>

definition float64_max :: real where
  "float64_max = (2 ^ 53 - 1) * 2 ^ 971"

text \<open>
  \<open>np.nan_to_num(x, nan=v)\<close> on one element of a \<open>float64\<close> array: only NaN becomes
  \<open>v\<close>; with \<open>posinf\<close> and \<open>neginf\<close> left at their defaults the infinities become the
  largest and the smallest finite number of the type.
\<close>

fun nan_to_num :: "int \<Rightarrow> fval \<Rightarrow> fval" where
  "nan_to_num v NaN = Fin (of_int v)"
| "nan_to_num v PInf = Fin float64_max"
| "nan_to_num v NInf = Fin (- float64_max)"
| "nan_to_num v (Fin r) = Fin r"

text \<open>
  \<open>astype(int)\<close> on one \<open>float64\<close> element: truncation towards zero.  A value that does
  not fit 64 bits, an infinity or a NaN is converted by the C cast, which on x86-64 gives
  the smallest integer, \<open>-2\<^sup>6\<^sup>3\<close>.
\<close>

definition trunc :: "real \<Rightarrow> int" where
  "trunc r = (if 0 \<le> r then \<lfloor>r\<rfloor> else \<lceil>r\<rceil>)"

definition int64_min :: int64 where
  "int64_min = word_of_int (- (2 ^ 63))"

fun astype_int :: "fval \<Rightarrow> int64" where
  "astype_int (Fin r) =
     (if - (2 ^ 63) \<le> trunc r \<and> trunc r < 2 ^ 63 then word_of_int (trunc r) else int64_min)"
| "astype_int v = int64_min"

text \<open>
  Boolean-mask indexing of a two-dimensional array.  \<open>a[mask]\<close> lists the elements at the
  \<open>True\<close> positions in row-major order (\<open>mask_get\<close>); \<open>a[mask] = vals\<close> writes the list
  \<open>vals\<close> back to those positions in the same order (\<open>mask_set\<close>).
\<close>

definition row_get :: "bool list \<Rightarrow> 'a list \<Rightarrow> 'a list" where
  "row_get m xs = map snd (filter fst (zip m xs))"

definition mask_get :: "bool list list \<Rightarrow> 'a list list \<Rightarrow> 'a list" where
  "mask_get m a = concat (map2 row_get m a)"

fun row_set :: "bool list \<Rightarrow> 'a list \<Rightarrow> 'a list \<Rightarrow> 'a list" where
  "row_set (True # m) (v # vs) (t # ts) = v # row_set m vs ts"
| "row_set (False # m) vs (t # ts) = t # row_set m vs ts"
| "row_set m vs ts = ts"

definition count_true :: "bool list \<Rightarrow> nat" where
  "count_true m = length (filter (\<lambda>b. b) m)"

fun mask_set :: "bool list list \<Rightarrow> 'a list \<Rightarrow> 'a list list \<Rightarrow> 'a list list" where
  "mask_set (m # ms) vs (t # ts) = row_set m vs t # mask_set ms (drop (count_true m) vs) ts"
| "mask_set ms vs ts = ts"

text \<open>
  One integer index into an axis of length \<open>n\<close>: an index from \<open>-n\<close> to \<open>-1\<close> counts
  from the end, an index outside \<open>-n \<dots> n - 1\<close> raises \<open>IndexError\<close>.
\<close>

definition norm_index :: "nat \<Rightarrow> int \<Rightarrow> error + nat" where
  "norm_index n i =
     (if 0 \<le> i \<and> i < int n then Inr (nat i)
      else if - int n \<le> i \<and> i < 0 then Inr (nat (i + int n))
      else Inl IndexError)"


text \<open>\<open>a[iy, ix, :]\<close> for one pair of integer indices.\<close>

definition take_pixel :: "'a list list list \<Rightarrow> int64 \<Rightarrow> int64 \<Rightarrow> error + 'a list" where
  "take_pixel a iy ix =
     (case norm_index (length a) (sint iy) of
        Inl e \<Rightarrow> Inl e
      | Inr r \<Rightarrow>
          (case norm_index (length (a ! r)) (sint ix) of
             Inl e \<Rightarrow> Inl e
           | Inr c \<Rightarrow> Inr (a ! r ! c)))"

text \<open>A list of results is a result: the first error, or all the values.\<close>

fun collect :: "(error + 'a) list \<Rightarrow> error + 'a list" where
  "collect [] = Inr []"
| "collect (Inl e # rs) = Inl e"
| "collect (Inr x # rs) = (case collect rs of Inl e \<Rightarrow> Inl e | Inr xs \<Rightarrow> Inr (x # xs))"

text \<open>
  \<open>a[iy, ix, :]\<close> for two index arrays of the same length (advanced indexing): element
  \<open>n\<close> of the result is \<open>a[iy[n], ix[n], :]\<close>.
\<close>

definition fancy_index :: "'a list list list \<Rightarrow> int64 list \<Rightarrow> int64 list \<Rightarrow> error + 'a list list" where
  "fancy_index a iy ix = collect (map2 (take_pixel a) iy ix)"

subsection \<open>How\_to\_Orthorectify: building the GLT index array\<close>

text \<open>
  \<^verbatim>\<open>GLT_NODATA_VALUE=0
glt_array = np.nan_to_num(np.stack([loc['glt_x'].data,loc['glt_y'].data],axis=-1),
                          nan=GLT_NODATA_VALUE).astype(int)\<close>
  \<open>loc['glt_x'].data\<close> and \<open>loc['glt_y'].data\<close> are the float arrays that the file
  reader hands over, with NaN where the file has no data.
\<close>

definition GLT_NODATA_VALUE :: int where
  "GLT_NODATA_VALUE = 0"

definition build_glt_array :: "fval list list \<Rightarrow> fval list list \<Rightarrow> error + (int64 \<times> int64) list list" where
  "build_glt_array glt_x glt_y =
     (case np_stack2 glt_x glt_y of
        Inl e \<Rightarrow> Inl e
      | Inr st \<Rightarrow>
          Inr (map (map (\<lambda>(a, b). (astype_int (nan_to_num GLT_NODATA_VALUE a),
                                    astype_int (nan_to_num GLT_NODATA_VALUE b)))) st))"

subsection \<open>How\_to\_Orthorectify: building the output array\<close>

text \<open>
  \<^verbatim>\<open>fill_value = -9999
out_ds = np.zeros((glt_array.shape[0], glt_array.shape[1], ds_array.shape[-1]),
                  dtype=np.float32) + fill_value
valid_glt = np.all(glt_array != GLT_NODATA_VALUE, axis=-1)
# Adjust for One based Index
glt_array[valid_glt] -= 1
# Use indexing/broadcasting to populate array cells with 0 values
out_ds[valid_glt, :] = ds_array[glt_array[valid_glt, 1], glt_array[valid_glt, 0], :]\<close>
  The cell reads the notebook variables \<open>glt_array\<close> and \<open>ds_array\<close>, assigns
  \<open>out_ds\<close> and updates \<open>glt_array\<close> in place.  An exception ends the cell and leaves
  the assignments made before it.  The record \<open>kernel\<close> holds the variables of the
  notebook that the two cells read or assign: the two GLT arrays of \<open>loc\<close>, the index
  array, the raw cube and the output.
\<close>

record kernel =
  loc_glt_x :: "fval list list"
  loc_glt_y :: "fval list list"
  glt_array :: "(int64 \<times> int64) list list"
  ds_array :: "fval list list list"
  out_ds :: "fval list list list"

definition fill_value :: int where
  "fill_value = - 9999"

text \<open>
  Every element of \<open>np.zeros(shape, dtype=np.float32) + fill_value\<close>: the sum of the
  \<open>float32\<close> zero and the Python integer, in \<open>float32\<close>.
\<close>

definition fill_elem :: fval where
  "fill_elem = to_float32 (Fin (0 + of_int fill_value))"

definition zeros_plus_fill :: "'a list list \<Rightarrow> nat \<Rightarrow> fval list list list" where
  "zeros_plus_fill g nb = map (map (\<lambda>_. replicate nb fill_elem)) g"

definition valid_mask :: "(int64 \<times> int64) list list \<Rightarrow> bool list list" where
  "valid_mask g =
     map (map (\<lambda>(gx, gy). gx \<noteq> word_of_int GLT_NODATA_VALUE \<and> gy \<noteq> word_of_int GLT_NODATA_VALUE)) g"

definition build_output :: "kernel \<Rightarrow> kernel \<times> error option" where
  "build_output k =
     (let out0 = zeros_plus_fill (glt_array k) (shape_last (ds_array k));
          valid_glt = valid_mask (glt_array k);
          glt1 = mask_set valid_glt
                   (map (\<lambda>(gx, gy). (gx - 1, gy - 1)) (mask_get valid_glt (glt_array k)))
                   (glt_array k);
          k1 = k\<lparr>glt_array := glt1, out_ds := out0\<rparr>;
          sel = mask_get valid_glt glt1
      in case fancy_index (ds_array k) (map snd sel) (map fst sel) of
           Inl e \<Rightarrow> (k1, Some e)
         | Inr vals \<Rightarrow>
             (k1\<lparr>out_ds := mask_set valid_glt (map (map to_float32) vals) out0\<rparr>, None))"

text \<open>
  The cell, cell by cell of the index array: \<open>valid_pair\<close> is one element of
  \<open>valid_glt\<close>, \<open>dec_pair\<close> the decrement of one pair, and \<open>gathered\<close> the pixels
  that the right-hand side of the last statement reads, in row-major order of the valid
  cells.
\<close>

definition valid_pair :: "int64 \<times> int64 \<Rightarrow> bool" where
  "valid_pair g = (fst g \<noteq> 0 \<and> snd g \<noteq> 0)"

definition dec_pair :: "int64 \<times> int64 \<Rightarrow> int64 \<times> int64" where
  "dec_pair g = (fst g - 1, snd g - 1)"

definition gathered :: "kernel \<Rightarrow> (error + fval list) list" where
  "gathered k =
     map (\<lambda>p. take_pixel (ds_array k) (snd (dec_pair p)) (fst (dec_pair p)))
       (filter valid_pair (concat (glt_array k)))"

text \<open>
  The index cell as a step on the notebook variables, and the two cells run in order.
\<close>

definition glt_cell :: "kernel \<Rightarrow> kernel \<times> error option" where
  "glt_cell k =
     (case build_glt_array (loc_glt_x k) (loc_glt_y k) of
        Inl e \<Rightarrow> (k, Some e)
      | Inr g \<Rightarrow> (k\<lparr>glt_array := g\<rparr>, None))"

definition run_cells :: "kernel \<Rightarrow> kernel \<times> error option" where
  "run_cells k =
     (case glt_cell k of
        (k1, Some e) \<Rightarrow> (k1, Some e)
      | (k1, None) \<Rightarrow> build_output k1)"

subsection \<open>How\_to\_Orthorectify: the latitude and longitude vectors\<close>

text \<open>
  \<^verbatim>\<open>dim_x = loc.glt_x.shape[1]
dim_y = loc.glt_x.shape[0]
lon = np.zeros(dim_x)
lat = np.zeros(dim_y)

for x in np.arange(dim_x):
    x_geo = (GT[0]+0.5*GT[1]) + x * GT[1]
    lon[x] = x_geo
for y in np.arange(dim_y):
    y_geo = (GT[3]+0.5*GT[5]) + y * GT[5]
    lat[y] = y_geo

lat, lon\<close>
  \<open>GT\<close> is the array of geotransform coefficients, \<open>float64\<close> values; reading it past
  its end raises \<open>IndexError\<close>.  The two formulas are computed in \<open>float64\<close>: every
  product and every sum is rounded, in the order in which the source writes them.
\<close>

text \<open>
  The rounding to \<open>float64\<close> (IEEE 754 binary64, round to nearest even): 53 significant
  bits, exponents from \<open>-1022\<close> to \<open>1023\<close>, subnormals below \<open>2\<^sup>-\<^sup>1\<^sup>0\<^sup>2\<^sup>2\<close>, overflow
  to an infinity from \<open>2\<^sup>1\<^sup>0\<^sup>2\<^sup>4\<close> on.
\<close>

definition round_float64 :: "real \<Rightarrow> fval" where
  "round_float64 r =
     (let a = \<bar>r\<bar> in
      if a = 0 then Fin 0
      else if 2 ^ 1024 \<le> a then (if 0 < r then PInf else NInf)
      else
        let e = (if a < 1 / 2 ^ 1022 then - 1022 else flog2 1024 a);
            ulp = pow2 (e - 52);
            m = of_int (round_half_even (a / ulp)) * ulp
        in if 2 ^ 1024 \<le> m then (if 0 < r then PInf else NInf)
           else Fin (if 0 < r then m else - m))"

fun to_float64 :: "fval \<Rightarrow> fval" where
  "to_float64 (Fin r) = round_float64 r"
| "to_float64 v = v"

text \<open>
  The \<open>float64\<close> sum and product: the exact result, rounded; NaN from a NaN operand, from
  \<open>\<infinity> - \<infinity>\<close> and from \<open>0 \<times> \<infinity>\<close>.
\<close>

fun fneg :: "fval \<Rightarrow> fval" where
  "fneg NaN = NaN"
| "fneg PInf = NInf"
| "fneg NInf = PInf"
| "fneg (Fin r) = Fin (- r)"

fun fadd :: "fval \<Rightarrow> fval \<Rightarrow> fval" where
  "fadd NaN v = NaN"
| "fadd v NaN = NaN"
| "fadd (Fin a) (Fin b) = round_float64 (a + b)"
| "fadd PInf NInf = NaN"
| "fadd NInf PInf = NaN"
| "fadd PInf v = PInf"
| "fadd NInf v = NInf"
| "fadd v PInf = PInf"
| "fadd v NInf = NInf"

fun fmul :: "fval \<Rightarrow> fval \<Rightarrow> fval" where
  "fmul NaN v = NaN"
| "fmul v NaN = NaN"
| "fmul (Fin a) (Fin b) = round_float64 (a * b)"
| "fmul (Fin a) v = (if a = 0 then NaN else if 0 < a then v else fneg v)"
| "fmul v (Fin b) = (if b = 0 then NaN else if 0 < b then v else fneg v)"
| "fmul PInf v = v"
| "fmul NInf v = fneg v"

text \<open>An integer of \<open>np.arange\<close> as the \<open>float64\<close> operand of a product.\<close>

definition index_float :: "nat \<Rightarrow> fval" where
  "index_float x = round_float64 (real x)"

definition gt_at :: "fval list \<Rightarrow> nat \<Rightarrow> error + fval" where
  "gt_at GT i = (if i < length GT then Inr (GT ! i) else Inl IndexError)"

text \<open>
  One of the two loops: \<open>org\<close> and \<open>stp\<close> are the positions in \<open>GT\<close> of the origin and
  of the pixel size, the list is what is left of \<open>np.arange(dim)\<close>, and \<open>arr\<close> is the
  vector being filled in place.
\<close>

fun fill_axis :: "fval list \<Rightarrow> nat \<Rightarrow> nat \<Rightarrow> nat list \<Rightarrow> fval list \<Rightarrow> error + fval list" where
  "fill_axis GT org stp [] arr = Inr arr"
| "fill_axis GT org stp (x # xs) arr =
     (case gt_at GT org of
        Inl e \<Rightarrow> Inl e
      | Inr a \<Rightarrow>
          (case gt_at GT stp of
             Inl e \<Rightarrow> Inl e
           | Inr b \<Rightarrow>
               fill_axis GT org stp xs
                 (arr[x := fadd (fadd a (fmul (Fin 0.5) b)) (fmul (index_float x) b)])))"

definition lat_lon :: "'a list list \<Rightarrow> fval list \<Rightarrow> error + (fval list \<times> fval list)" where
  "lat_lon glt_x GT =
     (let dim_x = shape1 glt_x;
          dim_y = length glt_x;
          lon = replicate dim_x (Fin 0);
          lat = replicate dim_y (Fin 0)
      in case fill_axis GT 0 1 [0..<dim_x] lon of
           Inl e \<Rightarrow> Inl e
         | Inr lon' \<Rightarrow>
             (case fill_axis GT 3 5 [0..<dim_y] lat of
                Inl e \<Rightarrow> Inl e
              | Inr lat' \<Rightarrow> Inr (lat', lon')))"

subsection \<open>Exploring L2A Reflectance: masking the bad wavelengths\<close>

text \<open>
  \<^verbatim>\<open>ds['reflectance'].data[:,:,ds['good_wavelengths'].data==0] = np.nan\<close>
  (and the same statement on \<open>ds_geo\<close>).  The comparison gives one boolean per band; a
  boolean index whose length differs from the band axis raises \<open>IndexError\<close>; the
  assignment writes NaN at the \<open>True\<close> bands of every pixel and is modelled as returning
  the updated array.
\<close>

definition mask_bad_bands :: "fval list list list \<Rightarrow> fval list \<Rightarrow> error + fval list list list" where
  "mask_bad_bands reflectance good_wavelengths =
     (let bad = map (\<lambda>g. g = Fin 0) good_wavelengths
      in if length bad \<noteq> shape_last reflectance then Inl IndexError
         else Inr (map (map (\<lambda>pix. map2 (\<lambda>b v. if b then NaN else v) bad pix)) reflectance))"

subsection \<open>The quality mask of \<open>emit_tools\<close>\<close>

text \<open>
  Modelled from the spec: \<open>emit_tools.quality_mask\<close>, which the notebook
  How\_to\_use\_EMIT\_Quality\_data calls and whose module is not among the source files.
  The spec: given a caller-selected subset of the indices of the available flag layers and
  the per-layer arrays \<open>[D,C]\<close>, produce one boolean mask \<open>[D,C]\<close> that is the logical OR
  of the selected layers exceeding the threshold \<open>> 0\<close>.  The layers are a list of
  two-dimensional arrays; a selection that names a layer that does not exist, or an empty
  list of layers, has no mask.
\<close>

fun exceeds :: "fval \<Rightarrow> bool" where
  "exceeds (Fin r) = (0 < r)"
| "exceeds PInf = True"
| "exceeds v = False"

definition quality_mask :: "fval list list list \<Rightarrow> nat list \<Rightarrow> bool list list option" where
  "quality_mask layers sel =
     (case layers of
        [] \<Rightarrow> None
      | l0 # _ \<Rightarrow>
          if list_all (\<lambda>i. i < length layers) sel
          then Some (map (\<lambda>d. map (\<lambda>c. list_ex (\<lambda>i. exceeds (layers ! i ! d ! c)) sel)
                                  [0..<length (l0 ! d)])
                       [0..<length l0])
          else None)"

subsection \<open>Example data\<close>

text \<open>
  A raw cube of shape \<open>(4, 3, 2)\<close> and an index array of shape \<open>(2, 2)\<close> with the pairs
  \<open>(glt_x, glt_y)\<close> \<open>[[(0,0), (2,1)], [(1,2), (0,0)]]\<close>, as the index cell builds it
  from the two GLT arrays with NaN at the two cells without data.
\<close>

definition example_kernel :: kernel where
  "example_kernel =
     \<lparr>loc_glt_x = [[NaN, Fin 2], [Fin 1, NaN]],
      loc_glt_y = [[NaN, Fin 1], [Fin 2, NaN]],
      glt_array = [[(0, 0), (2, 1)], [(1, 2), (0, 0)]],
      ds_array = [[[Fin 1, Fin 2], [Fin 3, Fin 4], [Fin 5, Fin 6]],
                  [[Fin 7, Fin 8], [Fin 9, Fin 10], [Fin 11, Fin 12]],
                  [[Fin 13, Fin 14], [Fin 15, Fin 16], [Fin 17, Fin 18]],
                  [[Fin 19, Fin 20], [Fin 21, Fin 22], [Fin 23, Fin 24]]],
      out_ds = []\<rparr>"

text \<open>
  A \<open>float64\<close> raw cube with one value, \<open>1 + 2\<^sup>-\<^sup>3\<^sup>0\<close>, that \<open>float32\<close> cannot hold; a
  cell whose \<open>glt_x\<close> is negative; a cell whose \<open>glt_x\<close> is past the three raw columns.
\<close>

definition drift_kernel :: kernel where
  "drift_kernel =
     \<lparr>loc_glt_x = [[Fin 1]], loc_glt_y = [[Fin 1]], glt_array = [[(1, 1)]],
      ds_array = [[[Fin (1 + 1 / 2 ^ 30)]]], out_ds = []\<rparr>"



text \<open>A reflectance array of shape \<open>(1, 2, 3)\<close> and three flag layers of shape \<open>(1, 2)\<close>.\<close>

definition example_reflectance :: "fval list list list" where
  "example_reflectance = [[[Fin 1, Fin 2, Fin 3], [Fin 4, Fin 5, Fin 6]]]"

definition example_layers :: "fval list list list" where
  "example_layers = [[[Fin 1, Fin 0]], [[Fin 0, Fin 0]], [[Fin 0, Fin 1]]]"

text \<open>
  Two arrays of geotransform coefficients.  The first holds the \<open>float64\<close> values that
  Python writes \<open>0.1, 0.2, 0, 0.3, 0, -0.1\<close>; the second is a grid with the row
  rotation \<open>0.01\<close>.
\<close>

definition example_GT :: "fval list" where
  "example_GT =
     [Fin (3602879701896397 / 36028797018963968), Fin (3602879701896397 / 18014398509481984),
      Fin 0, Fin (5404319552844595 / 18014398509481984), Fin 0,
      Fin (- (3602879701896397 / 36028797018963968))]"

definition rotated_GT :: "fval list" where
  "rotated_GT = [Fin 10, Fin 1, Fin (5764607523034235 / 576460752303423488), Fin 50, Fin 0, Fin (- 1)]"

text \<open>Three flag layers of shape \<open>(1, 2)\<close> whose first pixel is flagged in two layers.\<close>

definition doubly_flagged_layers :: "fval list list list" where
  "doubly_flagged_layers = [[[Fin 1, Fin 0]], [[Fin 1, Fin 0]], [[Fin 0, Fin 1]]]"

text \<open>A GLT array with an infinite entry, before the index cell has run.\<close>

definition inf_kernel :: kernel where
  "inf_kernel =
     \<lparr>loc_glt_x = [[PInf]], loc_glt_y = [[Fin 1]], glt_array = [],
      ds_array = [[[Fin 5]]], out_ds = []\<rparr>"

section \<open>Properties\<close>

subsection \<open>The cast to \<open>float32\<close> is a projection\<close>

lemma pow2_powr: "pow2 e = 2 powr (real_of_int e)"
  by (simp add: pow2_def powr_real_of_int inverse_eq_divide)

lemma pow2_pos: "0 < pow2 e"
  by (simp add: pow2_powr)

lemma pow2_add: "pow2 (a + b) = pow2 a * pow2 b"
  by (simp add: pow2_powr powr_add)

lemma pow2_Suc: "pow2 (e + 1) = 2 * pow2 e"
  by (simp add: pow2_powr powr_add)

lemma pow2_less_iff: "pow2 a < pow2 b \<longleftrightarrow> a < b"
  by (simp add: pow2_powr)

lemma pow2_le_iff: "pow2 a \<le> pow2 b \<longleftrightarrow> a \<le> b"
  by (simp add: pow2_powr)

lemma exponent_unique:
  assumes "pow2 e \<le> x" and "x < pow2 (e + 1)" and "pow2 e' \<le> x" and "x < pow2 (e' + 1)"
  shows "e = e'"
proof -
  from assms(1,4) have "pow2 e < pow2 (e' + 1)" by linarith
  then have "e \<le> e'" by (simp add: pow2_less_iff)
  moreover from assms(3,2) have "pow2 e' < pow2 (e + 1)" by linarith
  then have "e' \<le> e" by (simp add: pow2_less_iff)
  ultimately show ?thesis by simp
qed

lemma flog2_spec:
  "pow2 (- int n) \<le> x \<Longrightarrow> x < pow2 (int n + 1) \<Longrightarrow>
   pow2 (flog2 n x) \<le> x \<and> x < pow2 (flog2 n x + 1)"
proof (induction n arbitrary: x)
  case 0
  then show ?case by (simp add: pow2_def)
next
  case (Suc n)
  have one: "pow2 (- int n) \<le> 1"
    using pow2_le_iff [of "- int n" 0] by (simp add: pow2_def)
  have two: "2 \<le> pow2 (int n + 1)"
    using pow2_le_iff [of 1 "int n + 1"] by (simp add: pow2_def)
  have up: "pow2 (int (Suc n) + 1) = 2 * pow2 (int n + 1)"
    using pow2_Suc [of "int n + 1"] by (simp add: add.commute)
  have down: "pow2 (- int n) = 2 * pow2 (- int (Suc n))"
    using pow2_Suc [of "- int (Suc n)"] by simp
  show ?case
  proof (cases "2 \<le> x")
    case True
    have "pow2 (- int n) \<le> x / 2" and "x / 2 < pow2 (int n + 1)"
      using True one Suc.prems(2) up by simp_all
    from Suc.IH [OF this]
    have lo: "pow2 (flog2 n (x / 2)) \<le> x / 2" and hi: "x / 2 < pow2 (flog2 n (x / 2) + 1)"
      by simp_all
    have e: "flog2 (Suc n) x = flog2 n (x / 2) + 1" using True by simp
    have "pow2 (flog2 (Suc n) x) = 2 * pow2 (flog2 n (x / 2))"
      unfolding e by (rule pow2_Suc)
    moreover have "pow2 (flog2 (Suc n) x + 1) = 2 * pow2 (flog2 n (x / 2) + 1)"
      unfolding e by (rule pow2_Suc)
    ultimately show ?thesis using lo hi by linarith
  next
    case False
    show ?thesis
    proof (cases "x < 1")
      case True
      have "pow2 (- int n) \<le> 2 * x" and "2 * x < pow2 (int n + 1)"
        using Suc.prems(1) True two down by simp_all
      from Suc.IH [OF this]
      have lo: "pow2 (flog2 n (2 * x)) \<le> 2 * x" and hi: "2 * x < pow2 (flog2 n (2 * x) + 1)"
        by simp_all
      have e: "flog2 (Suc n) x = flog2 n (2 * x) - 1" using True False by simp
      have "pow2 (flog2 n (2 * x)) = 2 * pow2 (flog2 (Suc n) x)"
        unfolding e using pow2_Suc [of "flog2 n (2 * x) - 1"] by simp
      moreover have "pow2 (flog2 n (2 * x) + 1) = 2 * pow2 (flog2 (Suc n) x + 1)"
        unfolding e using pow2_Suc [of "flog2 n (2 * x)"] by simp
      ultimately show ?thesis using lo hi by linarith
    next
      case False
      then show ?thesis using \<open>\<not> 2 \<le> x\<close> by (simp add: pow2_def)
    qed
  qed
qed

lemma round_half_even_int: "round_half_even (of_int q) = q"
  by (simp add: round_half_even_def Let_def)

lemma round_half_even_ge: "of_int n \<le> x \<Longrightarrow> n \<le> round_half_even x"
proof -
  assume "of_int n \<le> x"
  then have "n \<le> \<lfloor>x\<rfloor>" by (simp add: le_floor_iff)
  then show ?thesis by (auto simp: round_half_even_def Let_def)
qed

lemma round_half_even_le: "x \<le> of_int n \<Longrightarrow> round_half_even x \<le> n"
proof -
  assume x: "x \<le> of_int n"
  show ?thesis
  proof (cases "x = of_int n")
    case True
    then show ?thesis by (simp add: round_half_even_int)
  next
    case False
    with x have "x < of_int n" by simp
    then have "\<lfloor>x\<rfloor> < n" by (simp add: floor_less_iff)
    then show ?thesis by (auto simp: round_half_even_def Let_def)
  qed
qed

lemma pow2_numerals:
  "pow2 128 = 2 ^ 128" "pow2 (- 126) = 1 / 2 ^ 126" "pow2 23 = 2 ^ 23" "pow2 24 = 2 ^ 24"
  by (simp_all add: pow2_def)

lemma pow2_split: "pow2 e = pow2 23 * pow2 (e - 23)"
proof -
  have "e = 23 + (e - 23)" by simp
  then show ?thesis by (metis pow2_add)
qed

lemma pow2_split_up: "pow2 (e + 1) = pow2 24 * pow2 (e - 23)"
proof -
  have "e + 1 = 24 + (e - 23)" by simp
  then show ?thesis by (simp only: pow2_add)
qed

lemma exponent_normal:
  assumes "pow2 (- 126) \<le> a" and "a < pow2 128"
  shows "pow2 (flog2 128 a) \<le> a" and "a < pow2 (flog2 128 a + 1)"
    and "- 126 \<le> flog2 128 a" and "flog2 128 a \<le> 127"
proof -
  have "pow2 (- int 128) \<le> pow2 (- 126)" and "pow2 128 \<le> pow2 (int 128 + 1)"
    by (simp_all add: pow2_le_iff)
  with assms have "pow2 (- int 128) \<le> a" and "a < pow2 (int 128 + 1)"
    by linarith+
  from flog2_spec [OF this]
  show lo: "pow2 (flog2 128 a) \<le> a" and hi: "a < pow2 (flog2 128 a + 1)"
    by simp_all
  from assms(1) hi have "pow2 (- 126) < pow2 (flog2 128 a + 1)" by linarith
  then show "- 126 \<le> flog2 128 a" by (simp add: pow2_less_iff)
  from assms(2) lo have "pow2 (flog2 128 a) < pow2 128" by linarith
  then show "flog2 128 a \<le> 127" by (simp add: pow2_less_iff)
qed

lemma round_float32_pos:
  assumes "0 < a" and "a < pow2 128"
    and "ex = (if a < pow2 (- 126) then - 126 else flog2 128 a)"
    and "m = of_int (round_half_even (a / pow2 (ex - 23))) * pow2 (ex - 23)"
  shows "round_float32 a = (if pow2 128 \<le> m then PInf else Fin m)"
    and "round_float32 (- a) = (if pow2 128 \<le> m then NInf else Fin (- m))"
  using assms by (simp_all add: round_float32_def Let_def pow2_numerals)

lemma grid_value:
  assumes "- 126 \<le> e" and "e \<le> 127"
    and "e = - 126 \<and> 0 < q \<and> q < 2 ^ 23 \<or> 2 ^ 23 \<le> q \<and> q < 2 ^ 24"
    and m: "m = of_int q * pow2 (e - 23)"
  shows "0 < m" and "m < pow2 128"
    and "(if m < pow2 (- 126) then - 126 else flog2 128 m) = e"
proof -
  have u: "0 < pow2 (e - 23)" by (rule pow2_pos)
  from assms(3) have qpos: "0 < q" by auto
  then show mpos: "0 < m" using u by (simp add: m)
  from assms(3) have "real_of_int q < pow2 24"
    by (auto simp: pow2_numerals)
  then have hi: "m < pow2 (e + 1)"
    using u by (simp add: m pow2_split_up)
  have "pow2 (e + 1) \<le> pow2 128" using assms(2) by (simp add: pow2_le_iff)
  with hi show m128: "m < pow2 128" by linarith
  show "(if m < pow2 (- 126) then - 126 else flog2 128 m) = e"
  proof (cases "2 ^ 23 \<le> q")
    case True
    then have "pow2 23 \<le> real_of_int q"
      by (simp add: pow2_numerals)
    then have lo: "pow2 e \<le> m"
      using u by (simp add: m pow2_split [of e])
    have "pow2 (- 126) \<le> pow2 e" using assms(1) by (simp add: pow2_le_iff)
    with lo have n: "pow2 (- 126) \<le> m" by linarith
    from exponent_normal(1,2) [OF n m128] lo hi
    have "flog2 128 m = e" by (intro exponent_unique [of _ m]) auto
    with n show ?thesis by simp
  next
    case False
    with assms(3) have e: "e = - 126" and q: "q < 2 ^ 23" by auto
    from q have "real_of_int q < pow2 23"
      by (simp add: pow2_numerals)
    then have "m < pow2 e" using u by (simp add: m pow2_split [of e])
    then show ?thesis by (simp add: e)
  qed
qed

lemma round_on_grid:
  assumes "on_grid m"
  shows "round_float32 m = Fin m" and "round_float32 (- m) = Fin (- m)"
proof -
  from assms obtain q e where e: "- 126 \<le> e" "e \<le> 127"
    and q: "e = - 126 \<and> 0 < q \<and> q < 2 ^ 23 \<or> 2 ^ 23 \<le> q \<and> q < 2 ^ 24"
    and m: "m = of_int q * pow2 (e - 23)"
    by (auto simp: on_grid_def)
  note g = grid_value [OF e q m]
  have "m / pow2 (e - 23) = of_int q"
    using pow2_pos [of "e - 23"] by (simp add: m)
  then have "m = of_int (round_half_even (m / pow2 (e - 23))) * pow2 (e - 23)"
    by (simp add: round_half_even_int m)
  from round_float32_pos [OF g(1,2) g(3) [symmetric] this] g(2)
  show "round_float32 m = Fin m" and "round_float32 (- m) = Fin (- m)"
    by simp_all
qed

lemma rounded_on_grid:
  assumes "0 < a" and "a < pow2 128"
    and ex: "ex = (if a < pow2 (- 126) then - 126 else flog2 128 a)"
    and m: "m = of_int (round_half_even (a / pow2 (ex - 23))) * pow2 (ex - 23)"
    and "m < pow2 128"
  shows "m = 0 \<or> on_grid m"
proof -
  let ?q = "round_half_even (a / pow2 (ex - 23))"
  have u: "0 < pow2 (ex - 23)" by (rule pow2_pos)
  have "real_of_int 0 \<le> a / pow2 (ex - 23)" using assms(1) u by simp
  then have q0: "0 \<le> ?q" by (rule round_half_even_ge)
  show ?thesis
  proof (cases "a < pow2 (- 126)")
    case True
    then have e: "ex = - 126" by (simp add: ex)
    have "a < pow2 23 * pow2 (ex - 23)"
      using True pow2_split [of "- 126"] by (simp add: e)
    then have "a / pow2 (ex - 23) \<le> real_of_int (2 ^ 23)"
      using u by (simp add: pos_divide_le_eq pow2_numerals)
    then have q1: "?q \<le> 2 ^ 23" by (rule round_half_even_le)
    show ?thesis
    proof (cases "?q = 0")
      case True
      then show ?thesis by (simp add: m)
    next
      case False
      with q0 have "0 < ?q" by simp
      with q1 have "- 126 \<le> ex \<and> ex \<le> 127
          \<and> (ex = - 126 \<and> 0 < ?q \<and> ?q < 2 ^ 23 \<or> 2 ^ 23 \<le> ?q \<and> ?q < 2 ^ 24)"
        by (auto simp: e)
      then show ?thesis unfolding on_grid_def using m by blast
    qed
  next
    case False
    then have e: "ex = flog2 128 a" and n: "pow2 (- 126) \<le> a" by (simp_all add: ex)
    note x = exponent_normal [OF n assms(2), folded e]
    from x(1) have "pow2 23 * pow2 (ex - 23) \<le> a" using pow2_split [of ex] by simp
    then have "real_of_int (2 ^ 23) \<le> a / pow2 (ex - 23)"
      using u by (simp add: pos_le_divide_eq pow2_numerals)
    then have q1: "2 ^ 23 \<le> ?q" by (rule round_half_even_ge)
    from x(2) have "a < pow2 24 * pow2 (ex - 23)" using pow2_split_up [of ex] by simp
    then have "a / pow2 (ex - 23) \<le> real_of_int (2 ^ 24)"
      using u by (simp add: pos_divide_le_eq pow2_numerals)
    then have q2: "?q \<le> 2 ^ 24" by (rule round_half_even_le)
    show ?thesis
    proof (cases "?q = 2 ^ 24")
      case True
      then have "m = pow2 24 * pow2 (ex - 23)" by (simp add: m pow2_numerals)
      then have m1: "m = pow2 (ex + 1)" by (simp add: pow2_split_up)
      with assms(5) have "ex + 1 < 128" by (simp add: pow2_less_iff)
      then have "- 126 \<le> ex + 1 \<and> ex + 1 \<le> 127" using x(3) by simp
      moreover have "m = of_int (2 ^ 23) * pow2 ((ex + 1) - 23)"
        using pow2_split [of "ex + 1"] by (simp add: m1 pow2_numerals)
      moreover have "(2::int) ^ 23 \<le> 2 ^ 23 \<and> (2::int) ^ 23 < 2 ^ 24" by simp
      ultimately show ?thesis unfolding on_grid_def by blast
    next
      case False
      with q1 q2 x(3,4) have "- 126 \<le> ex \<and> ex \<le> 127
          \<and> (ex = - 126 \<and> 0 < ?q \<and> ?q < 2 ^ 23 \<or> 2 ^ 23 \<le> ?q \<and> ?q < 2 ^ 24)"
        by auto
      then show ?thesis unfolding on_grid_def using m by blast
    qed
  qed
qed

lemma round_float32_Fin:
  assumes "round_float32 r = Fin m"
  shows "m = 0 \<or> on_grid m \<or> on_grid (- m)"
proof (cases "r = 0")
  case True
  with assms show ?thesis by (simp add: round_float32_def)
next
  case False
  define a where "a = \<bar>r\<bar>"
  define ex where "ex = (if a < pow2 (- 126) then - 126 else flog2 128 a)"
  define mm where "mm = of_int (round_half_even (a / pow2 (ex - 23))) * pow2 (ex - 23)"
  have a0: "0 < a" using False by (simp add: a_def)
  have a128: "a < pow2 128"
    using assms False by (auto simp: round_float32_def a_def pow2_numerals Let_def split: if_splits)
  note rf = round_float32_pos [OF a0 a128 ex_def mm_def]
  have ra: "r = a \<or> r = - a" by (auto simp: a_def)
  with rf assms have lt: "mm < pow2 128" and mv: "m = mm \<or> m = - mm"
    by (auto split: if_splits)
  from rounded_on_grid [OF a0 a128 ex_def mm_def lt] mv show ?thesis by auto
qed

lemma to_float32_idem: "to_float32 (to_float32 v) = to_float32 v"
proof (cases v)
  case (Fin r)
  show ?thesis
  proof (cases "round_float32 r")
    case (Fin m)
    from round_float32_Fin [OF this] consider "m = 0" | "on_grid m" | "on_grid (- m)"
      by blast
    then have "round_float32 m = Fin m"
    proof cases
      case 1
      then show ?thesis by (simp add: round_float32_def)
    next
      case 2
      then show ?thesis by (rule round_on_grid(1))
    next
      case 3
      from round_on_grid(2) [OF this] show ?thesis by simp
    qed
    with Fin \<open>v = Fin r\<close> show ?thesis by simp
  qed (simp_all add: \<open>v = Fin r\<close>)
qed simp_all

lemma is_float32_cast: "is_float32 (to_float32 v)"
  by (simp add: is_float32_def to_float32_idem)

lemma is_float32_range: "is_float32 v = (v \<in> range to_float32)"
  by (metis is_float32_def is_float32_cast rangeE rangeI)

subsection \<open>Boolean-mask indexing, cell by cell\<close>

lemma row_get_map: "row_get (map P xs) (map h xs) = map h (filter P xs)"
  by (induction xs) (simp_all add: row_get_def)

lemma mask_get_map: "mask_get (map (map P) a) (map (map h) a) = map h (filter P (concat a))"
  by (induction a) (simp_all add: mask_get_def row_get_map)

lemma mask_get_map_id: "mask_get (map (map P) a) a = filter P (concat a)"
  using mask_get_map [of P a "\<lambda>x. x"] by simp

lemma count_true_map: "count_true (map P xs) = length (filter P xs)"
  by (induction xs) (simp_all add: count_true_def)

lemma row_set_map:
  "length ts = length xs \<Longrightarrow>
   row_set (map P xs) (map F (filter P xs) @ rest) ts = map2 (\<lambda>x t. if P x then F x else t) xs ts"
proof (induction xs arbitrary: ts)
  case Nil
  then show ?case by simp
next
  case (Cons x xs)
  then obtain t ts' where ts: "ts = t # ts'" and len: "length ts' = length xs"
    by (cases ts) auto
  show ?case using Cons.IH [OF len] by (simp add: ts)
qed

lemma mask_set_map:
  "list_all2 (\<lambda>r t. length t = length r) a ts \<Longrightarrow>
   mask_set (map (map P) a) (map F (filter P (concat a)) @ rest) ts
     = map2 (map2 (\<lambda>x t. if P x then F x else t)) a ts"
proof (induction a ts arbitrary: rest rule: list_all2_induct)
  case Nil
  then show ?case by simp
next
  case (Cons r a t ts)
  have "mask_set (map (map P) (r # a)) (map F (filter P (concat (r # a))) @ rest) (t # ts)
      = row_set (map P r) (map F (filter P r) @ (map F (filter P (concat a)) @ rest)) t
        # mask_set (map (map P) a) (map F (filter P (concat a)) @ rest) ts"
    by (simp add: count_true_map)
  then show ?case using Cons by (simp add: row_set_map)
qed

lemma map2_map_same: "map2 G xs (map c xs) = map (\<lambda>x. G x (c x)) xs"
  by (induction xs) simp_all

lemma map2_map2_same: "map2 (map2 G) a (map (map c) a) = map (map (\<lambda>x. G x (c x))) a"
  by (induction a) (simp_all add: map2_map_same)

lemma same_shape_map: "list_all2 (\<lambda>r t. length t = length r) a (map (map c) a)"
  by (induction a) simp_all

lemma mask_set_same_shape:
  "mask_set (map (map P) a) (map F (filter P (concat a))) (map (map c) a)
     = map (map (\<lambda>x. if P x then F x else c x)) a"
  using mask_set_map [where a = a and ts = "map (map c) a" and P = P and F = F and rest = "[]",
      OF same_shape_map]
  by (simp add: map2_map2_same)

subsection \<open>Results of a list of reads\<close>

lemma collect_map_Inr:
  "collect (map f xs) = Inr vs \<Longrightarrow> vs = map (\<lambda>x. projr (f x)) xs \<and> (\<forall>x\<in>set xs. \<exists>p. f x = Inr p)"
proof (induction xs arbitrary: vs)
  case Nil
  then show ?case by simp
next
  case (Cons x xs)
  then show ?case
    by (cases "f x") (auto split: sum.splits)
qed

lemma collect_map_Inl:
  "collect (map f xs) = Inl e \<Longrightarrow> \<exists>x\<in>set xs. f x = Inl e"
proof (induction xs)
  case Nil
  then show ?case by simp
next
  case (Cons x xs)
  then show ?case
    by (cases "f x") (auto split: sum.splits)
qed


lemma take_pixel_error: "take_pixel a i j = Inl e \<Longrightarrow> e = IndexError"
  by (cases e) (auto simp: take_pixel_def norm_index_def split: sum.splits if_splits)

subsection \<open>The output cell, cell by cell of the index array\<close>

lemma valid_mask_eq: "valid_mask g = map (map valid_pair) g"
  by (simp add: valid_mask_def GLT_NODATA_VALUE_def valid_pair_def case_prod_beta)

lemma glt_decrement:
  "mask_set (valid_mask g) (map (\<lambda>(gx, gy). (gx - 1, gy - 1)) (mask_get (valid_mask g) g)) g
     = map (map (\<lambda>p. if valid_pair p then dec_pair p else p)) g"
proof -
  have "(\<lambda>(gx, gy). (gx - 1, gy - 1)) = dec_pair"
    by (auto simp: dec_pair_def)
  then show ?thesis
    using mask_set_same_shape [where P = valid_pair and F = dec_pair and a = g and c = "\<lambda>x. x"]
    by (simp add: valid_mask_eq mask_get_map_id)
qed

lemma selected_after_decrement:
  "mask_get (valid_mask g) (map (map (\<lambda>p. if valid_pair p then dec_pair p else p)) g)
     = map dec_pair (filter valid_pair (concat g))"
proof -
  have "map (\<lambda>p. if valid_pair p then dec_pair p else p) (filter valid_pair (concat g))
      = map dec_pair (filter valid_pair (concat g))"
    by (rule map_cong) auto
  then show ?thesis by (simp add: valid_mask_eq mask_get_map)
qed

lemma build_output_eq:
  "build_output k =
     (let k1 = k\<lparr>glt_array := map (map (\<lambda>p. if valid_pair p then dec_pair p else p)) (glt_array k),
                 out_ds := zeros_plus_fill (glt_array k) (shape_last (ds_array k))\<rparr>
      in case collect (gathered k) of
           Inl e \<Rightarrow> (k1, Some e)
         | Inr vals \<Rightarrow>
             (k1\<lparr>out_ds := mask_set (valid_mask (glt_array k)) (map (map to_float32) vals)
                              (zeros_plus_fill (glt_array k) (shape_last (ds_array k)))\<rparr>, None))"
proof -
  have "map2 (take_pixel (ds_array k))
          (map snd (map dec_pair (filter valid_pair (concat (glt_array k)))))
          (map fst (map dec_pair (filter valid_pair (concat (glt_array k)))))
        = gathered k"
    by (simp add: gathered_def zip_map_map zip_same_conv_map o_def)
  then show ?thesis
    unfolding build_output_def Let_def glt_decrement selected_after_decrement fancy_index_def
    by (simp only:)
qed

lemma build_output_ok:
  assumes "build_output k = (k', None)"
  shows "out_ds k' = map (map (\<lambda>p. if valid_pair p
            then map to_float32 (projr (take_pixel (ds_array k) (snd (dec_pair p)) (fst (dec_pair p))))
            else replicate (shape_last (ds_array k)) fill_elem)) (glt_array k)"
    and "\<forall>p\<in>set (concat (glt_array k)). valid_pair p \<longrightarrow>
            (\<exists>v. take_pixel (ds_array k) (snd (dec_pair p)) (fst (dec_pair p)) = Inr v)"
    and "glt_array k' = map (map (\<lambda>p. if valid_pair p then dec_pair p else p)) (glt_array k)"
    and "ds_array k' = ds_array k"
proof -
  obtain vals where vals: "collect (gathered k) = Inr vals"
    using assms by (auto simp: build_output_eq Let_def split: sum.splits)
  let ?f = "\<lambda>p. take_pixel (ds_array k) (snd (dec_pair p)) (fst (dec_pair p))"
  from vals have v: "vals = map (\<lambda>p. projr (?f p)) (filter valid_pair (concat (glt_array k)))"
    and ok: "\<forall>p\<in>set (filter valid_pair (concat (glt_array k))). \<exists>v. ?f p = Inr v"
    using collect_map_Inr [of ?f "filter valid_pair (concat (glt_array k))" vals]
    by (simp_all add: gathered_def)
  from ok show "\<forall>p\<in>set (concat (glt_array k)). valid_pair p \<longrightarrow> (\<exists>v. ?f p = Inr v)"
    by auto
  have k': "k' = k\<lparr>glt_array := map (map (\<lambda>p. if valid_pair p then dec_pair p else p)) (glt_array k),
                   out_ds := mask_set (valid_mask (glt_array k)) (map (map to_float32) vals)
                              (zeros_plus_fill (glt_array k) (shape_last (ds_array k)))\<rparr>"
    using assms vals by (simp add: build_output_eq Let_def)
  show "glt_array k' = map (map (\<lambda>p. if valid_pair p then dec_pair p else p)) (glt_array k)"
    and "ds_array k' = ds_array k"
    by (simp_all add: k')
  have "map (map to_float32) vals
      = map (\<lambda>p. map to_float32 (projr (?f p))) (filter valid_pair (concat (glt_array k)))"
    by (simp add: v o_def)
  then show "out_ds k' = map (map (\<lambda>p. if valid_pair p
            then map to_float32 (projr (?f p))
            else replicate (shape_last (ds_array k)) fill_elem)) (glt_array k)"
    using mask_set_same_shape [where P = valid_pair and F = "\<lambda>p. map to_float32 (projr (?f p))"
        and a = "glt_array k" and c = "\<lambda>_. replicate (shape_last (ds_array k)) fill_elem"]
    by (simp add: k' valid_mask_eq zeros_plus_fill_def)
qed

lemma build_output_raises:
  assumes "snd (build_output k) = Some e"
  shows "e = IndexError"
    and "out_ds (fst (build_output k)) = zeros_plus_fill (glt_array k) (shape_last (ds_array k))"
    and "glt_array (fst (build_output k)) = map (map (\<lambda>p. if valid_pair p then dec_pair p else p)) (glt_array k)"
    and "ds_array (fst (build_output k)) = ds_array k"
proof -
  from assms obtain e' where e': "collect (gathered k) = Inl e'"
    by (auto simp: build_output_eq Let_def split: sum.splits)
  with assms have "e' = e" by (simp add: build_output_eq Let_def)
  with e' have "collect (gathered k) = Inl e" by simp
  then obtain p where "take_pixel (ds_array k) (snd (dec_pair p)) (fst (dec_pair p)) = Inl e"
    unfolding gathered_def by (blast dest: collect_map_Inl)
  then show "e = IndexError" by (rule take_pixel_error)
  show "out_ds (fst (build_output k)) = zeros_plus_fill (glt_array k) (shape_last (ds_array k))"
    and "glt_array (fst (build_output k)) = map (map (\<lambda>p. if valid_pair p then dec_pair p else p)) (glt_array k)"
    and "ds_array (fst (build_output k)) = ds_array k"
    using e' by (simp_all add: build_output_eq Let_def)
qed

lemma fill_elem_value: "fill_elem = Fin (of_int fill_value)"
  by (simp add: fill_elem_def fill_value_def round_float32_def round_half_even_def pow2_def
      Let_def eval_nat_numeral)

lemma invalid_cell_out:
  assumes "y < length (glt_array k)" and "x < length (glt_array k ! y)"
    and "\<not> valid_pair (glt_array k ! y ! x)"
  shows "out_ds (fst (build_output k)) ! y ! x = replicate (shape_last (ds_array k)) fill_elem"
proof (cases "snd (build_output k)")
  case None
  then have "build_output k = (fst (build_output k), None)"
    by (metis prod.collapse)
  from build_output_ok(1) [OF this] assms show ?thesis by simp
next
  case (Some e)
  from build_output_raises(2) [OF this] assms show ?thesis
    by (simp add: zeros_plus_fill_def)
qed

lemmas eval_cell =
  build_output_def zeros_plus_fill_def shape_last_def valid_mask_def GLT_NODATA_VALUE_def
  mask_get_def row_get_def count_true_def fancy_index_def take_pixel_def norm_index_def
  fill_elem_def fill_value_def round_float32_def round_half_even_def pow2_def Let_def
  eval_nat_numeral

lemma sint_dec:
  assumes "0 < sint (w :: int64)" shows "sint (w - 1) = sint w - 1"
proof -
  have "sint w < 2 ^ 63" using sint_lt [of w] by simp
  then have "signed_take_bit 63 (sint w - 1) = sint w - 1"
    using assms by (intro signed_take_bit_int_eq_self) auto
  then show ?thesis
    by (simp add: sint_word_ariths)
qed

lemma take_pixel_nonneg:
  assumes "take_pixel a iy ix = Inr pix" and "0 \<le> sint iy" and "0 \<le> sint ix"
  shows "pix = a ! nat (sint iy) ! nat (sint ix)"
  using assms by (auto simp: take_pixel_def norm_index_def split: sum.splits if_splits)

lemma valid_cell_out:
  assumes "build_output k = (k', None)"
    and "y < length (glt_array k)" and "x < length (glt_array k ! y)"
    and "glt_array k ! y ! x = (gx, gy)" and "gx \<noteq> 0" and "gy \<noteq> 0"
  shows "\<exists>pix. take_pixel (ds_array k) (gy - 1) (gx - 1) = Inr pix
           \<and> out_ds k' ! y ! x = map to_float32 pix"
proof -
  let ?p = "glt_array k ! y ! x"
  have v: "valid_pair ?p" using assms(4-6) by (simp add: valid_pair_def)
  have "?p \<in> set (concat (glt_array k))"
    using assms(2,3) by (auto intro!: bexI [of _ "glt_array k ! y"])
  with build_output_ok(2) [OF assms(1)] v
  obtain pix where pix: "take_pixel (ds_array k) (snd (dec_pair ?p)) (fst (dec_pair ?p)) = Inr pix"
    by blast
  have "out_ds k' ! y ! x = map to_float32 pix"
    using build_output_ok(1) [OF assms(1)] assms(2,3) v pix by simp
  with pix show ?thesis by (simp add: assms(4) dec_pair_def)
qed

lemma fill_elem_float32: "is_float32 fill_elem"
  unfolding fill_elem_def by (rule is_float32_cast)

lemma out_ds_all_float32:
  "\<forall>row\<in>set (out_ds (fst (build_output k))). \<forall>pix\<in>set row. \<forall>v\<in>set pix. is_float32 v"
proof (cases "snd (build_output k)")
  case None
  then have "build_output k = (fst (build_output k), None)"
    by (metis prod.collapse)
  from build_output_ok(1) [OF this] show ?thesis
    by (auto simp: is_float32_cast fill_elem_float32)
next
  case (Some e)
  from build_output_raises(2) [OF this] show ?thesis
    by (auto simp: zeros_plus_fill_def fill_elem_float32)
qed

lemma example_run:
  "build_output example_kernel =
     (example_kernel
        \<lparr>glt_array := [[(0, 0), (1, 0)], [(0, 1), (0, 0)]],
         out_ds := [[[Fin (- 9999), Fin (- 9999)], [Fin 3, Fin 4]],
                    [[Fin 7, Fin 8], [Fin (- 9999), Fin (- 9999)]]]\<rparr>, None)"
  by (simp add: example_kernel_def eval_cell)



subsection \<open>The two cells on the notebook variables\<close>

lemma build_output_frame:
  "\<exists>G W. fst (build_output k) = k\<lparr>glt_array := G, out_ds := W\<rparr>"
  by (auto simp: build_output_eq Let_def split: sum.splits)

lemma build_output_ignores_out_ds:
  "build_output (k\<lparr>out_ds := previous\<rparr>) = build_output k"
  by (simp add: build_output_eq Let_def gathered_def split: sum.splits)

lemma run_cells_rerun: "run_cells (fst (run_cells k)) = run_cells k"
proof (cases "build_glt_array (loc_glt_x k) (loc_glt_y k)")
  case (Inl e)
  then show ?thesis by (simp add: run_cells_def glt_cell_def)
next
  case (Inr g)
  then have o: "run_cells k = build_output (k\<lparr>glt_array := g\<rparr>)"
    by (simp add: run_cells_def glt_cell_def)
  obtain G W where f: "fst (build_output (k\<lparr>glt_array := g\<rparr>)) = k\<lparr>glt_array := G, out_ds := W\<rparr>"
    using build_output_frame [of "k\<lparr>glt_array := g\<rparr>"] by auto
  have "run_cells (k\<lparr>glt_array := G, out_ds := W\<rparr>) = build_output (k\<lparr>glt_array := g, out_ds := W\<rparr>)"
    using Inr by (cases k) (simp add: run_cells_def glt_cell_def)
  also have "\<dots> = build_output (k\<lparr>glt_array := g\<rparr>)"
    using build_output_ignores_out_ds [where k = "k\<lparr>glt_array := g\<rparr>" and previous = W] by simp
  finally show ?thesis by (simp add: o f)
qed

lemma run_cells_frame:
  "loc_glt_x (fst (run_cells k)) = loc_glt_x k
   \<and> loc_glt_y (fst (run_cells k)) = loc_glt_y k
   \<and> ds_array (fst (run_cells k)) = ds_array k"
proof (cases "build_glt_array (loc_glt_x k) (loc_glt_y k)")
  case (Inl e)
  then show ?thesis by (simp add: run_cells_def glt_cell_def)
next
  case (Inr g)
  then have o: "run_cells k = build_output (k\<lparr>glt_array := g\<rparr>)"
    by (simp add: run_cells_def glt_cell_def)
  obtain G W where "fst (build_output (k\<lparr>glt_array := g\<rparr>)) = k\<lparr>glt_array := G, out_ds := W\<rparr>"
    using build_output_frame [of "k\<lparr>glt_array := g\<rparr>"] by auto
  then show ?thesis by (simp add: o)
qed

subsection \<open>The index cell, element by element\<close>



lemma inf_kernel_index:
  "glt_cell inf_kernel = (inf_kernel\<lparr>glt_array := [[(int64_min, 1)]]\<rparr>, None)"
  by (simp add: inf_kernel_def glt_cell_def build_glt_array_def np_stack2_def
      float64_max_def trunc_def)

lemma inf_kernel_raises:
  "snd (build_output (inf_kernel\<lparr>glt_array := [[(int64_min, 1)]]\<rparr>)) = Some IndexError"
  by (simp add: build_output_eq gathered_def valid_pair_def dec_pair_def take_pixel_def
      norm_index_def Let_def int64_min_def inf_kernel_def)

subsection \<open>The coordinate loops\<close>

lemma fill_axis_ok:
  "org < length GT \<Longrightarrow> stp < length GT \<Longrightarrow>
   fill_axis GT org stp xs arr
     = Inr (fold (\<lambda>x a. a[x := fadd (fadd (GT ! org) (fmul (Fin 0.5) (GT ! stp)))
                                    (fmul (index_float x) (GT ! stp))]) xs arr)"
  by (induction xs arbitrary: arr) (simp_all add: gt_at_def)

lemma fill_axis_cong:
  "gt_at GT' org = gt_at GT org \<Longrightarrow> gt_at GT' stp = gt_at GT stp \<Longrightarrow>
   fill_axis GT' org stp xs arr = fill_axis GT org stp xs arr"
  by (induction xs arbitrary: arr) (simp_all split: sum.splits)

lemma fold_update_upt:
  "n \<le> length arr \<Longrightarrow>
   fold (\<lambda>x a. a[x := f x]) [0..<n] arr = map f [0..<n] @ drop n arr"
proof (induction n)
  case 0
  then show ?case by simp
next
  case (Suc n)
  then have n: "n < length arr" by simp
  have "fold (\<lambda>x a. a[x := f x]) [0..<Suc n] arr = (map f [0..<n] @ drop n arr)[n := f n]"
    using Suc by simp
  also have "\<dots> = map f [0..<n] @ (drop n arr)[0 := f n]"
    by (simp add: list_update_append)
  also have "drop n arr = arr ! n # drop (Suc n) arr"
    using n by (simp add: Cons_nth_drop_Suc)
  finally show ?case by simp
qed

lemma fill_axis_zeros:
  assumes "org < length GT" and "stp < length GT"
  shows "fill_axis GT org stp [0..<n] (replicate n (Fin 0))
           = Inr (map (\<lambda>x. fadd (fadd (GT ! org) (fmul (Fin 0.5) (GT ! stp)))
                              (fmul (index_float x) (GT ! stp))) [0..<n])"
  using fold_update_upt [of n "replicate n (Fin 0)"
      "\<lambda>x. fadd (fadd (GT ! org) (fmul (Fin 0.5) (GT ! stp))) (fmul (index_float x) (GT ! stp))"]
  by (simp add: fill_axis_ok [OF assms])

lemma lat_lon_ok:
  assumes "6 \<le> length GT"
  shows "lat_lon glt_x GT
           = Inr (map (\<lambda>y. fadd (fadd (GT ! 3) (fmul (Fin 0.5) (GT ! 5)))
                              (fmul (index_float y) (GT ! 5))) [0..<length glt_x],
                  map (\<lambda>x. fadd (fadd (GT ! 0) (fmul (Fin 0.5) (GT ! 1)))
                              (fmul (index_float x) (GT ! 1))) [0..<shape1 glt_x])"
proof -
  have "0 < length GT" "1 < length GT" "3 < length GT" "5 < length GT"
    using assms by auto
  then show ?thesis
    by (simp add: lat_lon_def Let_def fill_axis_zeros)
qed

lemma fill_axis_error:
  "fill_axis GT org stp xs arr = Inl e \<Longrightarrow> e = IndexError"
  by (induction xs arbitrary: arr) (auto simp: gt_at_def split: sum.splits if_splits)

lemma lat_lon_short:
  assumes "length GT < 6" and "glt_x \<noteq> []"
  shows "lat_lon glt_x GT = Inl IndexError"
proof -
  from assms(2) have "0 < length glt_x" by simp
  then have n: "[0..<length glt_x] = 0 # [Suc 0..<length glt_x]"
    by (rule upt_conv_Cons)
  have "fill_axis GT 3 5 [0..<length glt_x] arr = Inl IndexError" for arr
    using assms(1) unfolding n by (simp add: gt_at_def)
  then show ?thesis
    by (auto simp: lat_lon_def Let_def split: sum.splits dest: fill_axis_error)
qed

lemmas eval_float64 =
  round_float64_def round_half_even_def pow2_def index_float_def Let_def eval_nat_numeral

text \<open>
  The coefficients of \<open>example_GT\<close> are the \<open>float64\<close> values of the decimals, and on
  them the loops store \<open>lat = [0.25, 0.15, 0.04999999999999999]\<close> and
  \<open>lon = [0.2, 0.4, 0.6000000000000001]\<close>.
\<close>

lemma example_GT_decimal:
  "example_GT = map to_float64 [Fin (1 / 10), Fin (2 / 10), Fin 0, Fin (3 / 10), Fin 0, Fin (- (1 / 10))]"
  by (simp add: example_GT_def eval_float64)

lemma example_vectors:
  "lat_lon [[NaN, NaN, NaN], [NaN, NaN, NaN], [NaN, NaN, NaN]] example_GT
     = Inr ([Fin (1 / 4), Fin (5404319552844595 / 36028797018963968),
             Fin (900719925474099 / 18014398509481984)],
            [Fin (3602879701896397 / 18014398509481984), Fin (3602879701896397 / 9007199254740992),
             Fin (1351079888211149 / 2251799813685248)])"
  by (simp add: lat_lon_ok shape1_def example_GT_def eval_float64 upt_conv_Cons)

lemma example_lon:
  "fadd (fadd (example_GT ! 0) (fmul (Fin 0.5) (example_GT ! 1))) (fmul (index_float 2) (example_GT ! 1))
     = Fin (1351079888211149 / 2251799813685248)"
  by (simp add: example_GT_def eval_float64)

lemma example_lat:
  "fadd (fadd (example_GT ! 3) (fmul (Fin 0.5) (example_GT ! 5))) (fmul (index_float 2) (example_GT ! 5))
     = Fin (900719925474099 / 18014398509481984)"
  by (simp add: example_GT_def eval_float64)

text \<open>
  The order of the operations matters in \<open>float64\<close>: on the same coefficients
  \<open>GT[0] + (x + 0.5) * GT[1]\<close> is \<open>0.6\<close> where the loop stores \<open>0.6000000000000001\<close>.
\<close>

lemma other_association_differs:
  "fadd (example_GT ! 0) (fmul (fadd (index_float 2) (Fin 0.5)) (example_GT ! 1))
     = Fin (5404319552844595 / 9007199254740992)
   \<and> fadd (example_GT ! 0) (fmul (fadd (index_float 2) (Fin 0.5)) (example_GT ! 1))
     \<noteq> fadd (fadd (example_GT ! 0) (fmul (Fin 0.5) (example_GT ! 1)))
          (fmul (index_float 2) (example_GT ! 1))"
  by (simp add: example_GT_def eval_float64)

subsection \<open>The band mask, element by element\<close>

lemma mask_bad_bands_returns:
  "shape_last reflectance = length gw \<Longrightarrow>
   mask_bad_bands reflectance gw
     = Inr (map (map (\<lambda>pix. map2 (\<lambda>b v. if b then NaN else v) (map (\<lambda>g. g = Fin 0) gw) pix))
              reflectance)"
  by (simp add: mask_bad_bands_def Let_def)

lemma mask_bad_bands_raises:
  "shape_last reflectance \<noteq> length gw \<Longrightarrow> mask_bad_bands reflectance gw = Inl IndexError"
  by (auto simp: mask_bad_bands_def Let_def)

lemma mask_bad_bands_nth:
  assumes "mask_bad_bands reflectance gw = Inr r"
    and "i < length reflectance" and "j < length (reflectance ! i)"
    and "b < length gw" and "length (reflectance ! i ! j) = length gw"
  shows "r ! i ! j ! b = (if gw ! b = Fin 0 then NaN else reflectance ! i ! j ! b)"
proof -
  from assms(1)
  have "r = map (map (\<lambda>pix. map2 (\<lambda>b v. if b then NaN else v) (map (\<lambda>g. g = Fin 0) gw) pix))
              reflectance"
    by (auto simp: mask_bad_bands_def Let_def split: if_splits)
  with assms(2-5) show ?thesis by simp
qed

text \<open>
  The infinities are no NaN: \<open>nan_to_num\<close> with only \<open>nan\<close> given turns \<open>+\<infinity>\<close> into
  the largest finite \<open>float64\<close>, the entry of the index array is not \<open>0\<close>, the cell
  counts as valid and the gather raises.
\<close>

lemma infinite_entry_is_kept:
  "loc_glt_x inf_kernel ! 0 ! 0 = PInf
   \<and> nan_to_num GLT_NODATA_VALUE (loc_glt_x inf_kernel ! 0 ! 0) \<noteq> Fin 0
   \<and> snd (glt_cell inf_kernel) = None
   \<and> fst (glt_array (fst (glt_cell inf_kernel)) ! 0 ! 0) \<noteq> 0
   \<and> snd (run_cells inf_kernel) = Some IndexError"
proof -
  have "loc_glt_x inf_kernel ! 0 ! 0 = PInf"
    by (simp add: inf_kernel_def)
  moreover have "nan_to_num GLT_NODATA_VALUE (loc_glt_x inf_kernel ! 0 ! 0) \<noteq> Fin 0"
    by (simp add: inf_kernel_def float64_max_def)
  moreover have "snd (glt_cell inf_kernel) = None"
    by (simp add: inf_kernel_index)
  moreover have "fst (glt_array (fst (glt_cell inf_kernel)) ! 0 ! 0) \<noteq> 0"
    by (simp add: inf_kernel_index int64_min_def)
  moreover have "snd (run_cells inf_kernel) = Some IndexError"
    by (simp add: run_cells_def inf_kernel_index inf_kernel_raises)
  ultimately show ?thesis by blast
qed

subsection \<open>Claims about the output cell\<close>

text \<open>
  C2.  At every cell of the index array where \<open>glt_x\<close> is \<open>0\<close> or \<open>glt_y\<close> is \<open>0\<close>,
  the output pixel has one value per band of the raw cube and every band holds the fill
  value \<open>-9999\<close>.  This holds for the \<open>out_ds\<close> that the cell leaves whether or not the
  gather of the other cells raised.
\<close>

theorem nodata_cell_is_fill:
  assumes "y < length (glt_array k)" and "x < length (glt_array k ! y)"
    and "glt_array k ! y ! x = (glt_x, glt_y)"
    and "glt_x = 0 \<or> glt_y = 0"
  shows "length (out_ds (fst (build_output k)) ! y ! x) = shape_last (ds_array k)
         \<and> (\<forall>b < shape_last (ds_array k).
               out_ds (fst (build_output k)) ! y ! x ! b = Fin (of_int fill_value))"
proof -
  from assms(3,4) have "\<not> valid_pair (glt_array k ! y ! x)"
    by (auto simp: valid_pair_def)
  from invalid_cell_out [OF assms(1,2) this] show ?thesis
    by (simp add: fill_elem_value)
qed

theorem nodata_cell_is_fill_witness:
  "0 < length (glt_array example_kernel) \<and> 0 < length (glt_array example_kernel ! 0)
   \<and> glt_array example_kernel ! 0 ! 0 = (0, 0)
   \<and> length (out_ds (fst (build_output example_kernel)) ! 0 ! 0) = 2
   \<and> out_ds (fst (build_output example_kernel)) ! 0 ! 0 ! 1 = Fin (- 9999)"
  using nodata_cell_is_fill [of 0 example_kernel 0 0 0]
  by (simp add: example_kernel_def shape_last_def fill_value_def)

text \<open>
  C1, as the code has it.  When the cell returns, every cell of the index array whose
  \<open>glt_x\<close> and \<open>glt_y\<close> are both non-zero holds the raw pixel
  \<open>ds_array[glt_y - 1, glt_x - 1, :]\<close>, each band cast to \<open>float32\<close>, because
  \<open>out_ds\<close> is allocated with \<open>dtype=np.float32\<close>; for positive \<open>glt_x\<close> and
  \<open>glt_y\<close> that pixel is the one at the 0-based indices \<open>(glt_y - 1, glt_x - 1)\<close>.
  The copy is verbatim when the raw values are \<open>float32\<close> values already.  One raw pixel
  and no other contributes to the cell.
\<close>

theorem valid_cell_is_float32_copy:
  assumes "build_output k = (k', None)"
    and "y < length (glt_array k)" and "x < length (glt_array k ! y)"
    and "glt_array k ! y ! x = (glt_x, glt_y)"
    and "glt_x \<noteq> 0" and "glt_y \<noteq> 0"
  shows "\<exists>pix. take_pixel (ds_array k) (glt_y - 1) (glt_x - 1) = Inr pix
           \<and> out_ds k' ! y ! x = map to_float32 pix
           \<and> ((\<forall>v \<in> set pix. is_float32 v) \<longrightarrow> out_ds k' ! y ! x = pix)
           \<and> (0 < sint glt_x \<and> 0 < sint glt_y \<longrightarrow>
                 pix = ds_array k ! nat (sint glt_y - 1) ! nat (sint glt_x - 1))"
proof -
  from valid_cell_out [OF assms] obtain pix
    where pix: "take_pixel (ds_array k) (glt_y - 1) (glt_x - 1) = Inr pix"
      and out: "out_ds k' ! y ! x = map to_float32 pix"
    by blast
  from out have "(\<forall>v \<in> set pix. is_float32 v) \<longrightarrow> out_ds k' ! y ! x = pix"
    by (simp add: map_idI is_float32_def)
  moreover have "0 < sint glt_x \<and> 0 < sint glt_y \<longrightarrow>
      pix = ds_array k ! nat (sint glt_y - 1) ! nat (sint glt_x - 1)"
    using take_pixel_nonneg [OF pix] by (simp add: sint_dec)
  ultimately show ?thesis using pix out by blast
qed

theorem valid_cell_is_float32_copy_witness:
  "snd (build_output example_kernel) = None
   \<and> glt_array example_kernel ! 0 ! 1 = (2, 1)
   \<and> out_ds (fst (build_output example_kernel)) ! 0 ! 1
       = map to_float32 (ds_array example_kernel ! 0 ! 1)
   \<and> out_ds (fst (build_output example_kernel)) ! 0 ! 1 = [Fin 3, Fin 4]"
proof -
  have run: "build_output example_kernel = (fst (build_output example_kernel), None)"
    by (simp add: example_run)
  have cell: "glt_array example_kernel ! 0 ! 1 = (2, 1)"
    and y: "0 < length (glt_array example_kernel)"
    and x: "1 < length (glt_array example_kernel ! 0)"
    by (simp_all add: example_kernel_def)
  have none: "snd (build_output example_kernel) = None"
    by (simp add: example_run)
  from valid_cell_is_float32_copy [OF run y x cell]
  obtain pix where "out_ds (fst (build_output example_kernel)) ! 0 ! 1 = map to_float32 pix"
    and "pix = ds_array example_kernel ! nat (sint (1 :: int64) - 1) ! nat (sint (2 :: int64) - 1)"
    by auto
  then have copy: "out_ds (fst (build_output example_kernel)) ! 0 ! 1
          = map to_float32 (ds_array example_kernel ! 0 ! 1)"
    by simp
  have val: "out_ds (fst (build_output example_kernel)) ! 0 ! 1 = [Fin 3, Fin 4]"
    by (simp add: example_run)
  from none cell copy val show ?thesis by blast
qed

text \<open>
  C1, as stated, fails on a \<open>float64\<close> raw cube: the raw value \<open>1 + 2\<^sup>-\<^sup>3\<^sup>0\<close> at the
  only, valid, cell arrives as \<open>1\<close>.
\<close>

theorem verbatim_copy_counterexample:
  "snd (build_output drift_kernel) = None
   \<and> glt_array drift_kernel ! 0 ! 0 = (1, 1)
   \<and> ds_array drift_kernel ! 0 ! 0 ! 0 = Fin (1 + 1 / 2 ^ 30)
   \<and> out_ds (fst (build_output drift_kernel)) ! 0 ! 0 ! 0 = Fin 1
   \<and> out_ds (fst (build_output drift_kernel)) ! 0 ! 0 ! 0 \<noteq> ds_array drift_kernel ! 0 ! 0 ! 0"
  by (simp add: drift_kernel_def eval_cell)

text \<open>
  C10.  Every value of the \<open>out_ds\<close> that the cell leaves is a \<open>float32\<close> value,
  whatever the raw cube holds.  When the cell returns, each band of a cell with both
  coordinates non-zero is the \<open>float32\<close> rounding of the band of the raw pixel
  \<open>ds_array[glt_y - 1, glt_x - 1, :]\<close>, and it equals the raw value exactly when the
  raw value is a \<open>float32\<close> value itself.
\<close>

theorem output_is_float32:
  "(\<forall>row\<in>set (out_ds (fst (build_output k))). \<forall>pix\<in>set row. \<forall>v\<in>set pix. is_float32 v)
   \<and> (build_output k = (k', None) \<and> y < length (glt_array k) \<and> x < length (glt_array k ! y)
        \<and> glt_array k ! y ! x = (glt_x, glt_y) \<and> glt_x \<noteq> 0 \<and> glt_y \<noteq> 0
        \<and> take_pixel (ds_array k) (glt_y - 1) (glt_x - 1) = Inr raw \<and> b < length raw
      \<longrightarrow> out_ds k' ! y ! x ! b = to_float32 (raw ! b)
          \<and> ((out_ds k' ! y ! x ! b = raw ! b) = is_float32 (raw ! b)))"
proof -
  have "out_ds k' ! y ! x ! b = to_float32 (raw ! b)
          \<and> ((out_ds k' ! y ! x ! b = raw ! b) = is_float32 (raw ! b))"
    if run: "build_output k = (k', None)"
      and y: "y < length (glt_array k)" and x: "x < length (glt_array k ! y)"
      and cell: "glt_array k ! y ! x = (glt_x, glt_y)"
      and nz: "glt_x \<noteq> 0" "glt_y \<noteq> 0"
      and raw: "take_pixel (ds_array k) (glt_y - 1) (glt_x - 1) = Inr raw"
      and b: "b < length raw"
  proof -
    from valid_cell_out [OF run y x cell nz] raw b
    have "out_ds k' ! y ! x ! b = to_float32 (raw ! b)"
      by auto
    then show ?thesis by (auto simp: is_float32_def)
  qed
  with out_ds_all_float32 [of k] show ?thesis by blast
qed

theorem output_is_float32_witness:
  "snd (build_output drift_kernel) = None
   \<and> glt_array drift_kernel ! 0 ! 0 = (1, 1)
   \<and> take_pixel (ds_array drift_kernel) (1 - 1) (1 - 1) = Inr [Fin (1 + 1 / 2 ^ 30)]
   \<and> out_ds (fst (build_output drift_kernel)) ! 0 ! 0 ! 0 = to_float32 (Fin (1 + 1 / 2 ^ 30))
   \<and> to_float32 (Fin (1 + 1 / 2 ^ 30)) = Fin 1
   \<and> is_float32 (Fin (1 + 1 / 2 ^ 30)) = False"
proof -
  have none: "snd (build_output drift_kernel) = None"
    by (simp add: drift_kernel_def eval_cell)
  then have run: "build_output drift_kernel = (fst (build_output drift_kernel), None)"
    by (metis prod.collapse)
  have cell: "glt_array drift_kernel ! 0 ! 0 = (1, 1)"
    and y: "0 < length (glt_array drift_kernel)"
    and x: "0 < length (glt_array drift_kernel ! 0)"
    and raw: "take_pixel (ds_array drift_kernel) (1 - 1) (1 - 1) = Inr [Fin (1 + 1 / 2 ^ 30)]"
    by (simp_all add: drift_kernel_def take_pixel_def norm_index_def)
  have cast: "to_float32 (Fin (1 + 1 / 2 ^ 30)) = Fin 1"
    by (simp add: round_float32_def round_half_even_def pow2_def Let_def eval_nat_numeral)
  then have nf: "is_float32 (Fin (1 + 1 / 2 ^ 30)) = False"
    by (simp add: is_float32_def)
  from output_is_float32 [of drift_kernel "fst (build_output drift_kernel)" 0 0 1 1
      "[Fin (1 + 1 / 2 ^ 30)]" 0] run y x cell raw
  have "out_ds (fst (build_output drift_kernel)) ! 0 ! 0 ! 0 = to_float32 (Fin (1 + 1 / 2 ^ 30))"
    by simp
  with none cell raw cast nf show ?thesis by blast
qed




subsection \<open>Claims about purity\<close>

text \<open>
  C4, as the code has it.  Running the index cell and then the output cell leaves the two
  GLT arrays of \<open>loc\<close> and the raw cube as they were, and running the pair again on the
  variables it left gives the same variables and the same outcome.  The output cell does
  not depend on an earlier \<open>out_ds\<close>.  It does overwrite its index array
  \<open>glt_array\<close>: every pair with both coordinates non-zero is decremented in place.
\<close>

theorem cells_effects:
  "loc_glt_x (fst (run_cells k)) = loc_glt_x k
   \<and> loc_glt_y (fst (run_cells k)) = loc_glt_y k
   \<and> ds_array (fst (run_cells k)) = ds_array k
   \<and> run_cells (fst (run_cells k)) = run_cells k
   \<and> build_output (k\<lparr>out_ds := previous\<rparr>) = build_output k
   \<and> glt_array (fst (build_output k))
       = map (map (\<lambda>p. if fst p \<noteq> 0 \<and> snd p \<noteq> 0 then (fst p - 1, snd p - 1) else p)) (glt_array k)"
proof -
  have "(\<lambda>p. if valid_pair p then dec_pair p else p)
      = (\<lambda>p. if fst p \<noteq> 0 \<and> snd p \<noteq> 0 then (fst p - 1, snd p - 1) else p)"
    by (auto simp: valid_pair_def dec_pair_def)
  then have "glt_array (fst (build_output k))
       = map (map (\<lambda>p. if fst p \<noteq> 0 \<and> snd p \<noteq> 0 then (fst p - 1, snd p - 1) else p)) (glt_array k)"
    by (simp add: build_output_eq Let_def split: sum.splits)
  with run_cells_frame [of k] run_cells_rerun [of k] build_output_ignores_out_ds [where k = k and previous = previous]
  show ?thesis by blast
qed

theorem cells_effects_witness:
  "ds_array (fst (run_cells example_kernel)) = ds_array example_kernel
   \<and> run_cells (fst (run_cells example_kernel)) = run_cells example_kernel
   \<and> build_output (example_kernel\<lparr>out_ds := [[[NaN]]]\<rparr>) = build_output example_kernel
   \<and> glt_array (fst (build_output example_kernel)) = [[(0, 0), (1, 0)], [(0, 1), (0, 0)]]"
  using cells_effects [where k = example_kernel and previous = "[[[NaN]]]"]
  by (simp add: example_kernel_def)

text \<open>
  C4, as stated, fails for the output cell: it changes the index array it is given, and a
  second run on the variables the first run left returns a different \<open>out_ds\<close> (the
  cells that held raw pixels now hold the fill value or other pixels).
\<close>

theorem rerun_counterexample:
  "glt_array (fst (build_output example_kernel)) \<noteq> glt_array example_kernel
   \<and> snd (build_output example_kernel) = None
   \<and> snd (build_output (fst (build_output example_kernel))) = None
   \<and> out_ds (fst (build_output (fst (build_output example_kernel))))
       \<noteq> out_ds (fst (build_output example_kernel))"
  by (simp add: example_run) (simp add: example_kernel_def eval_cell)

subsection \<open>Claims about the index cell\<close>



subsection \<open>Claims about the coordinate vectors\<close>

text \<open>
  C6.  With the six coefficients present, the two loops return \<open>lon\<close> of length
  \<open>glt_x.shape[1]\<close> and \<open>lat\<close> of length \<open>glt_x.shape[0]\<close>, and at every index
  \<open>lon[x]\<close> is the \<open>float64\<close> value of \<open>GT[0] + 0.5 * GT[1] + x * GT[1]\<close> and
  \<open>lat[y]\<close> the \<open>float64\<close> value of \<open>GT[3] + 0.5 * GT[5] + y * GT[5]\<close>, each computed
  from left to right with the products first, as Python evaluates the expression: the
  coordinates of the pixel centres.
\<close>

theorem pixel_centre_coordinates:
  assumes "6 \<le> length GT"
  shows "\<exists>lat lon. lat_lon glt_x GT = Inr (lat, lon)
           \<and> length lon = shape1 glt_x \<and> length lat = length glt_x
           \<and> (\<forall>x < shape1 glt_x.
                 lon ! x = fadd (fadd (GT ! 0) (fmul (Fin 0.5) (GT ! 1)))
                             (fmul (index_float x) (GT ! 1)))
           \<and> (\<forall>y < length glt_x.
                 lat ! y = fadd (fadd (GT ! 3) (fmul (Fin 0.5) (GT ! 5)))
                             (fmul (index_float y) (GT ! 5)))"
  by (simp add: lat_lon_ok [OF assms])

theorem pixel_centre_coordinates_witness:
  "6 \<le> length example_GT
   \<and> (\<exists>lat lon. lat_lon [[NaN, NaN, NaN], [NaN, NaN, NaN], [NaN, NaN, NaN]] example_GT = Inr (lat, lon)
         \<and> length lon = 3 \<and> length lat = 3
         \<and> lon ! 2 = Fin (1351079888211149 / 2251799813685248)
         \<and> lat ! 2 = Fin (900719925474099 / 18014398509481984))"
proof -
  have len: "6 \<le> length example_GT" by (simp add: example_GT_def)
  have two: "(2::nat) < 3" by simp
  from pixel_centre_coordinates [OF len, of "[[NaN, NaN, NaN], [NaN, NaN, NaN], [NaN, NaN, NaN]]"]
  obtain lat lon
    where r: "lat_lon [[NaN, NaN, NaN], [NaN, NaN, NaN], [NaN, NaN, NaN]] example_GT = Inr (lat, lon)"
      and l: "length lon = 3" "length lat = 3"
      and lon: "\<forall>x < 3. lon ! x = fadd (fadd (example_GT ! 0) (fmul (Fin 0.5) (example_GT ! 1)))
                                     (fmul (index_float x) (example_GT ! 1))"
      and lat: "\<forall>y < 3. lat ! y = fadd (fadd (example_GT ! 3) (fmul (Fin 0.5) (example_GT ! 5)))
                                     (fmul (index_float y) (example_GT ! 5))"
    unfolding shape1_def by (auto simp del: fadd.simps fmul.simps)
  from lon two have "lon ! 2 = fadd (fadd (example_GT ! 0) (fmul (Fin 0.5) (example_GT ! 1)))
                                     (fmul (index_float 2) (example_GT ! 1))"
    by blast
  then have a: "lon ! 2 = Fin (1351079888211149 / 2251799813685248)"
    by (simp only: example_lon)
  from lat two have "lat ! 2 = fadd (fadd (example_GT ! 3) (fmul (Fin 0.5) (example_GT ! 5)))
                                     (fmul (index_float 2) (example_GT ! 5))"
    by blast
  then have b: "lat ! 2 = Fin (900719925474099 / 18014398509481984)"
    by (simp only: example_lat)
  from len r l a b show ?thesis by blast
qed

text \<open>
  C3, as the code has it.  The loops never read \<open>GT[2]\<close> (row rotation) and \<open>GT[4]\<close>
  (column rotation): with the six coefficients present they return, for any values of the
  two rotations, the vectors they return for any other values, and raise nothing.
\<close>

theorem rotation_is_ignored:
  assumes "6 \<le> length GT"
  shows "\<exists>v. lat_lon glt_x (GT[2 := row_rot, 4 := col_rot]) = Inr v \<and> lat_lon glt_x GT = Inr v"
proof -
  let ?GT = "GT[2 := row_rot, 4 := col_rot]"
  have "fill_axis ?GT 0 1 xs arr = fill_axis GT 0 1 xs arr" for xs arr
    by (rule fill_axis_cong) (simp_all add: gt_at_def)
  moreover have "fill_axis ?GT 3 5 xs arr = fill_axis GT 3 5 xs arr" for xs arr
    by (rule fill_axis_cong) (simp_all add: gt_at_def)
  ultimately have "lat_lon glt_x ?GT = lat_lon glt_x GT"
    by (simp only: lat_lon_def)
  then show ?thesis by (simp add: lat_lon_ok [OF assms])
qed

theorem rotation_is_ignored_witness:
  "6 \<le> length [Fin 10, Fin 1, Fin 0, Fin 50, Fin 0, Fin (- 1)]
   \<and> [Fin 10, Fin 1, Fin 0, Fin 50, Fin 0, Fin (- 1)]
        [2 := Fin (5764607523034235 / 576460752303423488), 4 := Fin 0] = rotated_GT
   \<and> lat_lon [[NaN, NaN]] rotated_GT
       = lat_lon [[NaN, NaN]] [Fin 10, Fin 1, Fin 0, Fin 50, Fin 0, Fin (- 1)]"
proof -
  have len: "6 \<le> length [Fin 10, Fin 1, Fin 0, Fin 50, Fin 0, Fin (- 1)]" by simp
  have upd: "[Fin 10, Fin 1, Fin 0, Fin 50, Fin 0, Fin (- 1)]
        [2 := Fin (5764607523034235 / 576460752303423488), 4 := Fin 0] = rotated_GT"
    by (simp add: rotated_GT_def eval_nat_numeral)
  from rotation_is_ignored [OF len, of "[[NaN, NaN]]" "Fin (5764607523034235 / 576460752303423488)" "Fin 0"]
  have "lat_lon [[NaN, NaN]] rotated_GT
       = lat_lon [[NaN, NaN]] [Fin 10, Fin 1, Fin 0, Fin 50, Fin 0, Fin (- 1)]"
    unfolding upd by auto
  with len upd show ?thesis by blast
qed

text \<open>
  C3, as stated, fails: with the row rotation \<open>0.01\<close> (the \<open>float64\<close> value nearest to
  it) the loops return the north-up coordinates and no error.
\<close>

theorem rotated_grid_counterexample:
  "rotated_GT ! 2 = to_float64 (Fin (1 / 100))
   \<and> rotated_GT ! 2 \<noteq> Fin 0
   \<and> lat_lon [[NaN, NaN]] rotated_GT = Inr ([Fin (99 / 2)], [Fin (21 / 2), Fin (23 / 2)])"
proof -
  have "rotated_GT ! 2 = to_float64 (Fin (1 / 100))"
    by (simp add: rotated_GT_def eval_float64)
  moreover have "rotated_GT ! 2 \<noteq> Fin 0"
    by (simp add: rotated_GT_def eval_nat_numeral)
  moreover have "lat_lon [[NaN, NaN]] rotated_GT = Inr ([Fin (99 / 2)], [Fin (21 / 2), Fin (23 / 2)])"
    by (simp add: lat_lon_def shape1_def gt_at_def rotated_GT_def eval_float64)
  ultimately show ?thesis by blast
qed

subsection \<open>Claims about the masks\<close>

text \<open>
  C7.  When \<open>good_wavelengths\<close> has one entry per band, the masking statement returns,
  and in every pixel a band whose \<open>good_wavelengths\<close> entry is \<open>0\<close> holds NaN, and a
  band whose entry is \<open>1\<close>, or any value other than \<open>0\<close>, holds the reflectance it held
  before; the array keeps its shape.
\<close>

theorem bad_bands_become_nan:
  assumes "shape_last reflectance = length good_wavelengths"
    and "i < length reflectance" and "j < length (reflectance ! i)"
    and "b < length good_wavelengths"
    and "length (reflectance ! i ! j) = length good_wavelengths"
  shows "\<exists>r. mask_bad_bands reflectance good_wavelengths = Inr r
           \<and> length r = length reflectance \<and> length (r ! i) = length (reflectance ! i)
           \<and> length (r ! i ! j) = length (reflectance ! i ! j)
           \<and> (good_wavelengths ! b = Fin 0 \<longrightarrow> r ! i ! j ! b = NaN)
           \<and> (good_wavelengths ! b = Fin 1 \<longrightarrow> r ! i ! j ! b = reflectance ! i ! j ! b)
           \<and> (good_wavelengths ! b \<noteq> Fin 0 \<longrightarrow> r ! i ! j ! b = reflectance ! i ! j ! b)"
proof -
  let ?r = "map (map (\<lambda>pix. map2 (\<lambda>b v. if b then NaN else v)
                             (map (\<lambda>g. g = Fin 0) good_wavelengths) pix)) reflectance"
  have run: "mask_bad_bands reflectance good_wavelengths = Inr ?r"
    using assms(1) by (rule mask_bad_bands_returns)
  have "length ?r = length reflectance" and "length (?r ! i) = length (reflectance ! i)"
    and "length (?r ! i ! j) = length (reflectance ! i ! j)"
    using assms(2,3,5) by simp_all
  with run mask_bad_bands_nth [OF run assms(2-5)] show ?thesis by auto
qed

theorem bad_bands_become_nan_witness:
  "shape_last example_reflectance = length [Fin 1, Fin 0, Fin 1]
   \<and> (\<exists>r. mask_bad_bands example_reflectance [Fin 1, Fin 0, Fin 1] = Inr r
        \<and> r ! 0 ! 1 ! 1 = NaN
        \<and> r ! 0 ! 1 ! 2 = example_reflectance ! 0 ! 1 ! 2)"
proof -
  have sh: "shape_last example_reflectance = length [Fin 1, Fin 0, Fin 1]"
    by (simp add: example_reflectance_def shape_last_def)
  have i: "0 < length example_reflectance" and j: "1 < length (example_reflectance ! 0)"
    and len: "length (example_reflectance ! 0 ! 1) = length [Fin 1, Fin 0, Fin 1]"
    by (simp_all add: example_reflectance_def)
  have b1: "1 < length [Fin 1, Fin 0, Fin 1]" and b2: "2 < length [Fin 1, Fin 0, Fin 1]"
    by simp_all
  have g1: "[Fin 1, Fin 0, Fin 1] ! 1 = Fin 0" and g2: "[Fin 1, Fin 0, Fin 1] ! 2 = Fin 1"
    by (simp_all add: eval_nat_numeral)
  from bad_bands_become_nan [OF sh i j b1 len] g1
  obtain r where r: "mask_bad_bands example_reflectance [Fin 1, Fin 0, Fin 1] = Inr r"
    and n: "r ! 0 ! 1 ! 1 = NaN"
    by blast
  from bad_bands_become_nan [OF sh i j b2 len] g2 r
  have "r ! 0 ! 1 ! 2 = example_reflectance ! 0 ! 1 ! 2"
    by auto
  with sh r n show ?thesis by blast
qed

text \<open>
  C9.  For a selection of existing layers, the quality mask exists and has the shape of the
  layers; at every pixel it is the logical OR, over the selected indices, of the layer
  exceeding the threshold \<open>> 0\<close>.  Hence at a pixel that exceeds the threshold in layer
  \<open>i\<close> and in no other layer the mask is \<open>True\<close> exactly when \<open>i\<close> is among the
  selected indices.
\<close>

theorem quality_mask_or:
  assumes "set sel \<subseteq> {..< length layers}" and "layers \<noteq> []"
    and "d < length (layers ! 0)" and "c < length (layers ! 0 ! d)"
  shows "\<exists>m. quality_mask layers sel = Some m
           \<and> length m = length (layers ! 0) \<and> length (m ! d) = length (layers ! 0 ! d)
           \<and> m ! d ! c = (\<exists>i\<in>set sel. exceeds (layers ! i ! d ! c))
           \<and> (\<forall>i < length layers.
                 exceeds (layers ! i ! d ! c)
                 \<and> (\<forall>j < length layers. j \<noteq> i \<longrightarrow> \<not> exceeds (layers ! j ! d ! c))
                 \<longrightarrow> (m ! d ! c \<longleftrightarrow> i \<in> set sel))"
proof -
  from assms(2) obtain l0 ls where l: "layers = l0 # ls" by (cases layers) auto
  have all: "list_all (\<lambda>i. i < length layers) sel"
    using assms(1) by (auto simp: list_all_iff)
  let ?m = "map (\<lambda>d. map (\<lambda>c. list_ex (\<lambda>i. exceeds (layers ! i ! d ! c)) sel)
                           [0..<length (l0 ! d)]) [0..<length l0]"
  have m: "quality_mask layers sel = Some ?m"
    using all by (simp add: quality_mask_def l)
  have shape: "length ?m = length (layers ! 0)" "length (?m ! d) = length (layers ! 0 ! d)"
    using assms(3) by (simp_all add: l)
  have "?m ! d ! c = list_ex (\<lambda>i. exceeds (layers ! i ! d ! c)) sel"
    using assms(3,4) by (simp add: l)
  then have or: "?m ! d ! c = (\<exists>i\<in>set sel. exceeds (layers ! i ! d ! c))"
    by (simp add: list_ex_iff)
  have one: "\<forall>i < length layers.
                 exceeds (layers ! i ! d ! c)
                 \<and> (\<forall>j < length layers. j \<noteq> i \<longrightarrow> \<not> exceeds (layers ! j ! d ! c))
                 \<longrightarrow> (?m ! d ! c \<longleftrightarrow> i \<in> set sel)"
    unfolding or using assms(1) by blast
  from m shape or one show ?thesis by blast
qed

theorem quality_mask_or_witness:
  "set [0, 1 :: nat] \<subseteq> {..< length doubly_flagged_layers}
   \<and> exceeds (doubly_flagged_layers ! 0 ! 0 ! 0) \<and> exceeds (doubly_flagged_layers ! 1 ! 0 ! 0)
   \<and> (\<exists>m. quality_mask doubly_flagged_layers [0, 1] = Some m \<and> m ! 0 ! 0)
   \<and> (\<exists>m. quality_mask doubly_flagged_layers [1] = Some m \<and> m ! 0 ! 0)
   \<and> (\<exists>m. quality_mask doubly_flagged_layers [2] = Some m \<and> m ! 0 ! 0 = False)
   \<and> (\<exists>m. quality_mask example_layers [1] = Some m \<and> m ! 0 ! 0 = False)"
proof -
  have s01: "set [0, 1 :: nat] \<subseteq> {..< length doubly_flagged_layers}"
    and s1: "set [1 :: nat] \<subseteq> {..< length doubly_flagged_layers}"
    and s2: "set [2 :: nat] \<subseteq> {..< length doubly_flagged_layers}"
    and ne: "doubly_flagged_layers \<noteq> []"
    and d: "0 < length (doubly_flagged_layers ! 0)"
    and c: "0 < length (doubly_flagged_layers ! 0 ! 0)"
    and e0: "exceeds (doubly_flagged_layers ! 0 ! 0 ! 0)"
    and e1: "exceeds (doubly_flagged_layers ! 1 ! 0 ! 0)"
    and e2: "\<not> exceeds (doubly_flagged_layers ! 2 ! 0 ! 0)"
    by (simp_all add: doubly_flagged_layers_def eval_nat_numeral)
  from quality_mask_or [OF s01 ne d c] e0
  have a: "\<exists>m. quality_mask doubly_flagged_layers [0, 1] = Some m \<and> m ! 0 ! 0"
    by auto
  from quality_mask_or [OF s1 ne d c] e1
  have b: "\<exists>m. quality_mask doubly_flagged_layers [1] = Some m \<and> m ! 0 ! 0"
    by auto
  from quality_mask_or [OF s2 ne d c] e2
  have cc: "\<exists>m. quality_mask doubly_flagged_layers [2] = Some m \<and> m ! 0 ! 0 = False"
    by auto
  have t1: "set [1 :: nat] \<subseteq> {..< length example_layers}"
    and tne: "example_layers \<noteq> []"
    and td: "0 < length (example_layers ! 0)" and tc: "0 < length (example_layers ! 0 ! 0)"
    and te: "\<not> exceeds (example_layers ! 1 ! 0 ! 0)"
    by (simp_all add: example_layers_def)
  from quality_mask_or [OF t1 tne td tc] te
  have dd: "\<exists>m. quality_mask example_layers [1] = Some m \<and> m ! 0 ! 0 = False"
    by auto
  from s01 e0 e1 a b cc dd show ?thesis by blast
qed

end
